theory Spec2Isabelle
  imports Main "HOL-Library.Word"
begin

section \<open>The heap of payload blocks\<close>

text \<open>
  \<open>util/status.h\<close> keeps one field per \<open>Status\<close>: the pointer \<open>state_\<close>, which is
  \<open>NULL\<close> or the address of a \<open>new[]\<close> array of \<open>char\<close>. The heap is the list of all
  arrays allocated so far, the array at address \<open>a\<close> in cell \<open>a\<close>; a cell is \<open>None\<close> once
  its array is deleted. The next \<open>new[]\<close> returns the address after the last cell, so an
  address is never given out twice. A pointer is an \<open>addr option\<close>, \<open>None\<close> being \<open>NULL\<close>.
\<close>

type_synonym addr = nat

type_synonym heap = "char list option list"

definition empty_heap :: heap where
  "empty_heap = []"

definition next_addr :: "heap \<Rightarrow> addr" where
  "next_addr h = length h"

text \<open>The live array at an address, if there is one.\<close>

definition blocks :: "heap \<Rightarrow> addr \<Rightarrow> char list option" where
  "blocks h a = (if a < length h then h ! a else None)"

text \<open>\<open>new char[length bs]\<close>, filled with \<open>bs\<close>.\<close>

definition new_arr :: "heap \<Rightarrow> char list \<Rightarrow> heap \<times> addr" where
  "new_arr h bs = (h @ [Some bs], next_addr h)"

text \<open>\<open>delete[] p\<close>; deleting \<open>NULL\<close> does nothing.\<close>

definition delete_arr :: "heap \<Rightarrow> addr option \<Rightarrow> heap" where
  "delete_arr h p = (case p of None \<Rightarrow> h | Some a \<Rightarrow> h[a := None])"

text \<open>
  Reading \<open>p[i]\<close> and the \<open>n\<close> bytes \<open>p[i..i+n-1]\<close>. A read through a pointer to no live
  array, or past the end of the array, has no defined result: \<open>None\<close>.
\<close>

definition load :: "heap \<Rightarrow> addr \<Rightarrow> nat \<Rightarrow> char option" where
  "load h a i =
     (case blocks h a of
        None \<Rightarrow> None
      | Some bs \<Rightarrow> if i < length bs then Some (bs ! i) else None)"

definition load_range :: "heap \<Rightarrow> addr \<Rightarrow> nat \<Rightarrow> nat \<Rightarrow> char list option" where
  "load_range h a i n =
     (case blocks h a of
        None \<Rightarrow> None
      | Some bs \<Rightarrow> if i + n \<le> length bs then Some (take n (drop i bs)) else None)"


section \<open>The class \<open>Status\<close>\<close>

text \<open>The field \<open>state_\<close> of the class (a name cannot end in an underscore here).\<close>

record Status =
  state :: "addr option"

text \<open>The private \<open>enum Code\<close> with the values of its enumerators.\<close>

datatype Code =
    kOk | kNotFound | kCorruption | kNotSupported | kInvalidArgument | kIOError
  | kAlreadyPresent | kRuntimeError | kNetworkError | kIllegalState | kNotAuthorized
  | kAborted | kRemoteError | kServiceUnavailable | kTimedOut | kUninitialized
  | kConfigurationError

fun Code_value :: "Code \<Rightarrow> nat" where
  "Code_value kOk = 0"
| "Code_value kNotFound = 1"
| "Code_value kCorruption = 2"
| "Code_value kNotSupported = 3"
| "Code_value kInvalidArgument = 4"
| "Code_value kIOError = 5"
| "Code_value kAlreadyPresent = 6"
| "Code_value kRuntimeError = 7"
| "Code_value kNetworkError = 8"
| "Code_value kIllegalState = 9"
| "Code_value kNotAuthorized = 10"
| "Code_value kAborted = 11"
| "Code_value kRemoteError = 12"
| "Code_value kServiceUnavailable = 13"
| "Code_value kTimedOut = 14"
| "Code_value kUninitialized = 15"
| "Code_value kConfigurationError = 16"

definition all_codes :: "Code list" where
  "all_codes =
     [kOk, kNotFound, kCorruption, kNotSupported, kInvalidArgument, kIOError,
      kAlreadyPresent, kRuntimeError, kNetworkError, kIllegalState, kNotAuthorized,
      kAborted, kRemoteError, kServiceUnavailable, kTimedOut, kUninitialized,
      kConfigurationError]"

text \<open>
  \<open>static_cast<Code>(c)\<close> of a \<open>char\<close>: the enumerator whose value the byte holds. A byte
  that holds the value of no enumerator gives \<open>None\<close>.
\<close>

definition static_cast_Code :: "char \<Rightarrow> Code option" where
  "static_cast_Code c = find (\<lambda>k. Code_value k = of_char c) all_codes"

text \<open>The error categories: every enumerator but \<open>kOk\<close>.\<close>

definition categories :: "Code list" where
  "categories = tl all_codes"


subsection \<open>Fields of the payload block\<close>

text \<open>
  The layout comment of \<open>state_\<close>: \<open>state_[0..3]\<close> is the length of the message,
  \<open>state_[4]\<close> the code, \<open>state_[5..6]\<close> the posix code, \<open>state_[7..]\<close> the message.
  The header gives no byte order; the low-order byte is taken first. Four bytes hold a
  length modulo \<open>2 ^ 32\<close>, two bytes an \<open>int16_t\<close>.
\<close>

definition store_u32 :: "nat \<Rightarrow> char list" where
  "store_u32 n =
     [char_of n, char_of (n div 256), char_of (n div 65536), char_of (n div 16777216)]"

fun load_u32 :: "char list \<Rightarrow> nat" where
  "load_u32 [] = 0"
| "load_u32 (c # cs) = of_char c + 256 * load_u32 cs"

definition store_i16 :: "16 word \<Rightarrow> char list" where
  "store_i16 w = [char_of (unat w), char_of (unat w div 256)]"

definition load_i16 :: "char list \<Rightarrow> 16 word" where
  "load_i16 cs = word_of_nat (load_u32 cs)"

definition encode_state :: "Code \<Rightarrow> 16 word \<Rightarrow> string \<Rightarrow> char list" where
  "encode_state c posix m =
     store_u32 (length m) @ [char_of (Code_value c)] @ store_i16 posix @ m"


subsection \<open>Construction\<close>

text \<open>\<open>Status() : state_(NULL)\<close> and \<open>static Status OK()\<close>.\<close>

definition Status_default :: Status where
  "Status_default = \<lparr>state = None\<rparr>"

definition OK :: Status where
  "OK = Status_default"

text \<open>
  A \<open>Slice\<close> (\<open>util/slice.h\<close>) is taken as the bytes it views: a \<open>string\<close>.
\<close>

text \<open>
  Modelled from the spec: the message that the private constructor stores; the constructor
  is only declared in \<open>status.h\<close>. The spec: the two fragments "are concatenated with a
  separating delimiter (\<open>": "\<close>) into one combined message when both are non-empty".
\<close>

definition combine :: "string \<Rightarrow> string \<Rightarrow> string" where
  "combine msg msg2 =
     (if msg \<noteq> [] \<and> msg2 \<noteq> [] then msg @ '': '' @ msg2 else msg @ msg2)"

text \<open>
  Modelled from the spec: the message bytes that a new block holds; the code that fills a
  block is only declared in \<open>status.h\<close>. The spec: "the block's first bytes hold the
  payload's byte length (enabling message extraction without rescanning), followed by the
  category tag, the platform code, and the raw message bytes". The length is kept in the
  four bytes \<open>state_[0..3]\<close>, which hold it modulo \<open>2 ^ 32\<close>; the block holds as many bytes
  of the message as its length field records, so all of a message shorter than \<open>2 ^ 32\<close>
  bytes.
\<close>

definition stored_message :: "string \<Rightarrow> string" where
  "stored_message m = take (length m mod 2 ^ 32) m"

text \<open>
  Modelled from the spec: the private constructor
  \<open>Status(Code code, const Slice& msg, const Slice& msg2, int16_t posix_code)\<close>, only
  declared in \<open>status.h\<close>. The spec: construction "allocates one contiguous block sized to
  the combined message length plus fixed header fields, copies category, platform code,
  and concatenated message bytes into it".
\<close>

definition Status_ctor :: "heap \<Rightarrow> Code \<Rightarrow> string \<Rightarrow> string \<Rightarrow> 16 word \<Rightarrow> heap \<times> Status" where
  "Status_ctor h c msg msg2 posix =
     (let (h', a) = new_arr h (encode_state c posix (stored_message (combine msg msg2)))
      in (h', \<lparr>state = Some a\<rparr>))"

text \<open>
  The default arguments \<open>msg2 = Slice()\<close> and \<open>posix_code = -1\<close> of the sixteen factories:
  an argument left out at the call is \<open>None\<close>.
\<close>

definition default_msg2 :: "string option \<Rightarrow> string" where
  "default_msg2 msg2 = (case msg2 of None \<Rightarrow> [] | Some m \<Rightarrow> m)"

definition default_posix_code :: "16 word option \<Rightarrow> 16 word" where
  "default_posix_code p = (case p of None \<Rightarrow> - 1 | Some q \<Rightarrow> q)"

definition NotFound :: "heap \<Rightarrow> string \<Rightarrow> string option \<Rightarrow> 16 word option \<Rightarrow> heap \<times> Status" where
  "NotFound h msg msg2 posix_code =
     Status_ctor h kNotFound msg (default_msg2 msg2) (default_posix_code posix_code)"

definition Corruption :: "heap \<Rightarrow> string \<Rightarrow> string option \<Rightarrow> 16 word option \<Rightarrow> heap \<times> Status" where
  "Corruption h msg msg2 posix_code =
     Status_ctor h kCorruption msg (default_msg2 msg2) (default_posix_code posix_code)"

definition NotSupported :: "heap \<Rightarrow> string \<Rightarrow> string option \<Rightarrow> 16 word option \<Rightarrow> heap \<times> Status" where
  "NotSupported h msg msg2 posix_code =
     Status_ctor h kNotSupported msg (default_msg2 msg2) (default_posix_code posix_code)"

definition InvalidArgument :: "heap \<Rightarrow> string \<Rightarrow> string option \<Rightarrow> 16 word option \<Rightarrow> heap \<times> Status" where
  "InvalidArgument h msg msg2 posix_code =
     Status_ctor h kInvalidArgument msg (default_msg2 msg2) (default_posix_code posix_code)"

definition IOError :: "heap \<Rightarrow> string \<Rightarrow> string option \<Rightarrow> 16 word option \<Rightarrow> heap \<times> Status" where
  "IOError h msg msg2 posix_code =
     Status_ctor h kIOError msg (default_msg2 msg2) (default_posix_code posix_code)"

definition AlreadyPresent :: "heap \<Rightarrow> string \<Rightarrow> string option \<Rightarrow> 16 word option \<Rightarrow> heap \<times> Status" where
  "AlreadyPresent h msg msg2 posix_code =
     Status_ctor h kAlreadyPresent msg (default_msg2 msg2) (default_posix_code posix_code)"

definition RuntimeError :: "heap \<Rightarrow> string \<Rightarrow> string option \<Rightarrow> 16 word option \<Rightarrow> heap \<times> Status" where
  "RuntimeError h msg msg2 posix_code =
     Status_ctor h kRuntimeError msg (default_msg2 msg2) (default_posix_code posix_code)"

definition NetworkError :: "heap \<Rightarrow> string \<Rightarrow> string option \<Rightarrow> 16 word option \<Rightarrow> heap \<times> Status" where
  "NetworkError h msg msg2 posix_code =
     Status_ctor h kNetworkError msg (default_msg2 msg2) (default_posix_code posix_code)"

definition IllegalState :: "heap \<Rightarrow> string \<Rightarrow> string option \<Rightarrow> 16 word option \<Rightarrow> heap \<times> Status" where
  "IllegalState h msg msg2 posix_code =
     Status_ctor h kIllegalState msg (default_msg2 msg2) (default_posix_code posix_code)"

definition NotAuthorized :: "heap \<Rightarrow> string \<Rightarrow> string option \<Rightarrow> 16 word option \<Rightarrow> heap \<times> Status" where
  "NotAuthorized h msg msg2 posix_code =
     Status_ctor h kNotAuthorized msg (default_msg2 msg2) (default_posix_code posix_code)"

definition Aborted :: "heap \<Rightarrow> string \<Rightarrow> string option \<Rightarrow> 16 word option \<Rightarrow> heap \<times> Status" where
  "Aborted h msg msg2 posix_code =
     Status_ctor h kAborted msg (default_msg2 msg2) (default_posix_code posix_code)"

definition RemoteError :: "heap \<Rightarrow> string \<Rightarrow> string option \<Rightarrow> 16 word option \<Rightarrow> heap \<times> Status" where
  "RemoteError h msg msg2 posix_code =
     Status_ctor h kRemoteError msg (default_msg2 msg2) (default_posix_code posix_code)"

definition ServiceUnavailable :: "heap \<Rightarrow> string \<Rightarrow> string option \<Rightarrow> 16 word option \<Rightarrow> heap \<times> Status" where
  "ServiceUnavailable h msg msg2 posix_code =
     Status_ctor h kServiceUnavailable msg (default_msg2 msg2) (default_posix_code posix_code)"

definition TimedOut :: "heap \<Rightarrow> string \<Rightarrow> string option \<Rightarrow> 16 word option \<Rightarrow> heap \<times> Status" where
  "TimedOut h msg msg2 posix_code =
     Status_ctor h kTimedOut msg (default_msg2 msg2) (default_posix_code posix_code)"

definition Uninitialized :: "heap \<Rightarrow> string \<Rightarrow> string option \<Rightarrow> 16 word option \<Rightarrow> heap \<times> Status" where
  "Uninitialized h msg msg2 posix_code =
     Status_ctor h kUninitialized msg (default_msg2 msg2) (default_posix_code posix_code)"

definition ConfigurationError :: "heap \<Rightarrow> string \<Rightarrow> string option \<Rightarrow> 16 word option \<Rightarrow> heap \<times> Status" where
  "ConfigurationError h msg msg2 posix_code =
     Status_ctor h kConfigurationError msg (default_msg2 msg2) (default_posix_code posix_code)"

text \<open>
  The factory of a category, to state a property of all sixteen at once; \<open>kOk\<close> has the
  factory \<open>OK()\<close>, which takes no argument and allocates nothing.
\<close>

fun factory :: "Code \<Rightarrow> heap \<Rightarrow> string \<Rightarrow> string option \<Rightarrow> 16 word option \<Rightarrow> heap \<times> Status" where
  "factory kOk h msg msg2 p = (h, OK)"
| "factory kNotFound h msg msg2 p = NotFound h msg msg2 p"
| "factory kCorruption h msg msg2 p = Corruption h msg msg2 p"
| "factory kNotSupported h msg msg2 p = NotSupported h msg msg2 p"
| "factory kInvalidArgument h msg msg2 p = InvalidArgument h msg msg2 p"
| "factory kIOError h msg msg2 p = IOError h msg msg2 p"
| "factory kAlreadyPresent h msg msg2 p = AlreadyPresent h msg msg2 p"
| "factory kRuntimeError h msg msg2 p = RuntimeError h msg msg2 p"
| "factory kNetworkError h msg msg2 p = NetworkError h msg msg2 p"
| "factory kIllegalState h msg msg2 p = IllegalState h msg msg2 p"
| "factory kNotAuthorized h msg msg2 p = NotAuthorized h msg msg2 p"
| "factory kAborted h msg msg2 p = Aborted h msg msg2 p"
| "factory kRemoteError h msg msg2 p = RemoteError h msg msg2 p"
| "factory kServiceUnavailable h msg msg2 p = ServiceUnavailable h msg msg2 p"
| "factory kTimedOut h msg msg2 p = TimedOut h msg msg2 p"
| "factory kUninitialized h msg msg2 p = Uninitialized h msg msg2 p"
| "factory kConfigurationError h msg msg2 p = ConfigurationError h msg msg2 p"


subsection \<open>Inspection\<close>

text \<open>\<open>bool ok() const { return (state_ == NULL); }\<close>\<close>

definition ok :: "Status \<Rightarrow> bool" where
  "ok s = (state s = None)"

text \<open>\<open>Code code() const { return (state_ == NULL) ? kOk : static_cast<Code>(state_[4]); }\<close>\<close>

definition code :: "heap \<Rightarrow> Status \<Rightarrow> Code option" where
  "code h s =
     (case state s of
        None \<Rightarrow> Some kOk
      | Some a \<Rightarrow> Option.bind (load h a 4) static_cast_Code)"

definition IsNotFound :: "heap \<Rightarrow> Status \<Rightarrow> bool" where
  "IsNotFound h s = (code h s = Some kNotFound)"

definition IsCorruption :: "heap \<Rightarrow> Status \<Rightarrow> bool" where
  "IsCorruption h s = (code h s = Some kCorruption)"

definition IsNotSupported :: "heap \<Rightarrow> Status \<Rightarrow> bool" where
  "IsNotSupported h s = (code h s = Some kNotSupported)"

definition IsIOError :: "heap \<Rightarrow> Status \<Rightarrow> bool" where
  "IsIOError h s = (code h s = Some kIOError)"

definition IsInvalidArgument :: "heap \<Rightarrow> Status \<Rightarrow> bool" where
  "IsInvalidArgument h s = (code h s = Some kInvalidArgument)"

definition IsAlreadyPresent :: "heap \<Rightarrow> Status \<Rightarrow> bool" where
  "IsAlreadyPresent h s = (code h s = Some kAlreadyPresent)"

definition IsRuntimeError :: "heap \<Rightarrow> Status \<Rightarrow> bool" where
  "IsRuntimeError h s = (code h s = Some kRuntimeError)"

definition IsNetworkError :: "heap \<Rightarrow> Status \<Rightarrow> bool" where
  "IsNetworkError h s = (code h s = Some kNetworkError)"

definition IsIllegalState :: "heap \<Rightarrow> Status \<Rightarrow> bool" where
  "IsIllegalState h s = (code h s = Some kIllegalState)"

definition IsNotAuthorized :: "heap \<Rightarrow> Status \<Rightarrow> bool" where
  "IsNotAuthorized h s = (code h s = Some kNotAuthorized)"

definition IsAborted :: "heap \<Rightarrow> Status \<Rightarrow> bool" where
  "IsAborted h s = (code h s = Some kAborted)"

definition IsRemoteError :: "heap \<Rightarrow> Status \<Rightarrow> bool" where
  "IsRemoteError h s = (code h s = Some kRemoteError)"

definition IsServiceUnavailable :: "heap \<Rightarrow> Status \<Rightarrow> bool" where
  "IsServiceUnavailable h s = (code h s = Some kServiceUnavailable)"

definition IsTimedOut :: "heap \<Rightarrow> Status \<Rightarrow> bool" where
  "IsTimedOut h s = (code h s = Some kTimedOut)"

definition IsUninitialized :: "heap \<Rightarrow> Status \<Rightarrow> bool" where
  "IsUninitialized h s = (code h s = Some kUninitialized)"

definition IsConfigurationError :: "heap \<Rightarrow> Status \<Rightarrow> bool" where
  "IsConfigurationError h s = (code h s = Some kConfigurationError)"

text \<open>
  The predicate of a category, to state a property of all sixteen at once; for \<open>kOk\<close> it
  is \<open>ok()\<close>.
\<close>

fun Is :: "Code \<Rightarrow> heap \<Rightarrow> Status \<Rightarrow> bool" where
  "Is kOk h s = ok s"
| "Is kNotFound h s = IsNotFound h s"
| "Is kCorruption h s = IsCorruption h s"
| "Is kNotSupported h s = IsNotSupported h s"
| "Is kInvalidArgument h s = IsInvalidArgument h s"
| "Is kIOError h s = IsIOError h s"
| "Is kAlreadyPresent h s = IsAlreadyPresent h s"
| "Is kRuntimeError h s = IsRuntimeError h s"
| "Is kNetworkError h s = IsNetworkError h s"
| "Is kIllegalState h s = IsIllegalState h s"
| "Is kNotAuthorized h s = IsNotAuthorized h s"
| "Is kAborted h s = IsAborted h s"
| "Is kRemoteError h s = IsRemoteError h s"
| "Is kServiceUnavailable h s = IsServiceUnavailable h s"
| "Is kTimedOut h s = IsTimedOut h s"
| "Is kUninitialized h s = IsUninitialized h s"
| "Is kConfigurationError h s = IsConfigurationError h s"


text \<open>
  Modelled from the spec: \<open>Slice message() const\<close> is only declared in \<open>status.h\<close>. The
  spec: it "returns a view over the stored message bytes only (excludes category/code
  framing); returns empty for Ok"; the length at the head of the block enables "message
  extraction without rescanning".
\<close>

definition message :: "heap \<Rightarrow> Status \<Rightarrow> string option" where
  "message h s =
     (case state s of
        None \<Rightarrow> Some []
      | Some a \<Rightarrow> Option.bind (load_range h a 0 4) (\<lambda>l. load_range h a 7 (load_u32 l)))"

text \<open>
  Modelled from the spec: \<open>int16_t posix_code() const\<close> is only declared in \<open>status.h\<close>,
  under the comment "Get the POSIX code associated with this Status, or -1 if there is
  none". The spec: it "returns the stored platform code, or the absent sentinel if none
  was supplied or the instance is Ok".
\<close>

definition posix_code :: "heap \<Rightarrow> Status \<Rightarrow> 16 word option" where
  "posix_code h s =
     (case state s of
        None \<Rightarrow> Some (- 1)
      | Some a \<Rightarrow> map_option load_i16 (load_range h a 5 2))"

text \<open>
  Modelled from the spec: the platform code inside \<open>" (error <platform_code>)"\<close>, which
  \<open>ToString()\<close> appends: a signed integer in decimal.
\<close>

fun dec_digits :: "nat \<Rightarrow> string" where
  "dec_digits n =
     (if n < 10 then [char_of (48 + n)]
      else dec_digits (n div 10) @ [char_of (48 + n mod 10)])"

declare dec_digits.simps [simp del]

definition dec_int :: "int \<Rightarrow> string" where
  "dec_int i = (if i < 0 then CHR ''-'' # dec_digits (nat (- i)) else dec_digits (nat i))"

text \<open>
  Modelled from the spec: \<open>std::string CodeAsString() const\<close> is only declared in
  \<open>status.h\<close>. The spec: \<open>category_name()\<close> "renders just the category's display name,
  independent of message content". Neither the spec nor the header gives the display
  names: they are the parameter \<open>names\<close>.
\<close>

definition CodeAsString :: "(Code \<Rightarrow> string) \<Rightarrow> heap \<Rightarrow> Status \<Rightarrow> string option" where
  "CodeAsString names h s = map_option names (code h s)"

text \<open>
  Modelled from the spec: what \<open>ToString()\<close> appends "when a platform code is present",
  that is, when it is not the sentinel \<open>-1\<close>.
\<close>

definition posix_suffix :: "16 word \<Rightarrow> string" where
  "posix_suffix p = (if p \<noteq> - 1 then '' (error '' @ dec_int (sint p) @ '')'' else [])"

text \<open>
  Modelled from the spec: \<open>std::string ToString() const\<close> is only declared in \<open>status.h\<close>.
  The spec: it renders "\<open>"OK"\<close> for success; otherwise \<open>"<CategoryName>: <message>"\<close>,
  appending \<open>" (error <platform_code>)"\<close> when a platform code is present".
\<close>

definition ToString :: "(Code \<Rightarrow> string) \<Rightarrow> heap \<Rightarrow> Status \<Rightarrow> string option" where
  "ToString names h s =
     (if ok s then Some ''OK''
      else
        (case (CodeAsString names h s, message h s, posix_code h s) of
           (Some n, Some m, Some p) \<Rightarrow> Some (n @ '': '' @ m @ posix_suffix p)
         | _ \<Rightarrow> None))"


subsection \<open>Copying and assignment\<close>

text \<open>
  Modelled from the spec: \<open>static const char* CopyState(const char* s)\<close> is only declared
  in \<open>status.h\<close>. The spec: "copying a non-Ok instance deep-copies the block; no sharing".
  Copying from a pointer to no live array has no defined result.
\<close>

definition CopyState :: "heap \<Rightarrow> addr \<Rightarrow> (heap \<times> addr) option" where
  "CopyState h a = (case blocks h a of None \<Rightarrow> None | Some bs \<Rightarrow> Some (new_arr h bs))"

text \<open>
  \<open>Status::Status(const Status& s)\<close>:
  \<open>state_ = (s.state_ == NULL) ? NULL : CopyState(s.state_);\<close>
\<close>

definition Status_copy :: "heap \<Rightarrow> Status \<Rightarrow> (heap \<times> Status) option" where
  "Status_copy h s =
     (case state s of
        None \<Rightarrow> Some (h, \<lparr>state = None\<rparr>)
      | Some a \<Rightarrow> map_option (\<lambda>(h', a'). (h', \<lparr>state = Some a'\<rparr>)) (CopyState h a))"

text \<open>
  \<open>void Status::operator=(const Status& s)\<close>, on the fields of \<open>*this\<close> and of \<open>s\<close>; when
  \<open>this == &s\<close> the two are the same record. It returns the heap and the new \<open>*this\<close>.
\<close>

definition operator_assign :: "heap \<Rightarrow> Status \<Rightarrow> Status \<Rightarrow> (heap \<times> Status) option" where
  "operator_assign h this s =
     (if state this \<noteq> state s then
        (let h1 = delete_arr h (state this)
         in (case state s of
               None \<Rightarrow> Some (h1, this\<lparr>state := None\<rparr>)
             | Some a \<Rightarrow>
                 map_option (\<lambda>(h2, a'). (h2, this\<lparr>state := Some a'\<rparr>)) (CopyState h1 a)))
      else Some (h, this))"

text \<open>
  Modelled from the spec: \<open>Status CloneAndPrepend(const Slice& msg) const\<close> is only declared
  in \<open>status.h\<close>. The spec: it "returns a new instance of the same category and platform
  code, whose message is \<open>extra_message\<close> concatenated with the original message via the
  standard delimiter"; cloning "allocates a new block"; "calling this on an Ok instance is
  invalid usage (undefined/unspecified outcome)", which is \<open>None\<close> here.
\<close>

definition CloneAndPrepend :: "heap \<Rightarrow> Status \<Rightarrow> string \<Rightarrow> (heap \<times> Status) option" where
  "CloneAndPrepend h s msg =
     (if ok s then None
      else
        (case (code h s, message h s, posix_code h s) of
           (Some c, Some m, Some p) \<Rightarrow>
             (let (h', a) = new_arr h (encode_state c p (stored_message (msg @ '': '' @ m)))
              in Some (h', \<lparr>state = Some a\<rparr>))
         | _ \<Rightarrow> None))"


subsection \<open>The representation invariant\<close>

text \<open>
  A well-formed payload block: the seven header bytes are there, the first four hold the
  number of bytes that follow the header, and byte 4 is the value of an error category.
  Bytes 5 and 6 are the posix code, whatever they hold. A well-formed \<open>Status\<close> is \<open>NULL\<close>
  or points to a live well-formed block.
\<close>

definition wf_state :: "char list \<Rightarrow> bool" where
  "wf_state bs =
     (7 \<le> length bs \<and> take 4 bs = store_u32 (length bs - 7) \<and> length bs - 7 < 2 ^ 32 \<and>
      (case static_cast_Code (bs ! 4) of None \<Rightarrow> False | Some c \<Rightarrow> c \<noteq> kOk))"

definition wf_Status :: "heap \<Rightarrow> Status \<Rightarrow> bool" where
  "wf_Status h s =
     (case state s of
        None \<Rightarrow> True
      | Some a \<Rightarrow> (case blocks h a of None \<Rightarrow> False | Some bs \<Rightarrow> wf_state bs))"


text \<open>A pointer that is \<open>NULL\<close> or the address of a live array.\<close>

definition live :: "heap \<Rightarrow> Status \<Rightarrow> bool" where
  "live h s = (case state s of None \<Rightarrow> True | Some a \<Rightarrow> blocks h a \<noteq> None)"

text \<open>The message of the instance that an operation returned, if it returned one.\<close>

definition returned_message :: "(heap \<times> Status) option \<Rightarrow> string option" where
  "returned_message r = (case r of None \<Rightarrow> None | Some (h, s) \<Rightarrow> message h s)"


section \<open>The fields of a block read back\<close>

lemma mod_256_step: "(n::nat) mod 256 + 256 * (n div 256 mod m) = n mod (256 * m)"
  by (simp add: mod_mult2_eq)

lemma load_store_u32: "load_u32 (store_u32 n) = n mod 2 ^ 32"
proof -
  define a where "a = n div 256"
  define b where "b = a div 256"
  define c where "c = b div 256"
  have b: "n div 65536 = b" 
    unfolding b_def a_def by (simp add: div_mult2_eq)
  have c: "n div 16777216 = c"
    unfolding c_def b_def a_def by (simp add: div_mult2_eq)
  have "load_u32 (store_u32 n) =
          n mod 256 + 256 * (a mod 256 + 256 * (b mod 256 + 256 * (c mod 256)))"
    by (simp add: store_u32_def b c a_def [symmetric])
  also have "c mod 256 = b div 256 mod 256" by (simp add: c_def)
  also have "b mod 256 + 256 * (b div 256 mod 256) = b mod (256 * 256)"
    by (rule mod_256_step)
  also have "b = a div 256" by (rule b_def)
  also have "a mod 256 + 256 * (a div 256 mod (256 * 256)) = a mod (256 * (256 * 256))"
    by (rule mod_256_step)
  also have "a = n div 256" by (rule a_def)
  also have "n mod 256 + 256 * (n div 256 mod (256 * (256 * 256))) = n mod (256 * (256 * (256 * 256)))"
    by (rule mod_256_step)
  finally show ?thesis by simp
qed

lemma load_store_i16: "load_i16 (store_i16 w) = w"
proof -
  have "unat w < 256 * 256" using unsigned_less [of w] by simp
  then have "unat w div 256 < 256" by (simp only: less_mult_imp_div_less)
  then have "unat w div 256 mod 256 = unat w div 256" by simp
  then show ?thesis by (simp add: store_i16_def load_i16_def)
qed

lemma store_load_i16: "store_i16 (load_i16 [b0, b1]) = [b0, b1]"
proof -
  define x :: nat where "x = of_char b0 + 256 * of_char b1"
  have b0: "of_char b0 < (256::nat)" and b1: "of_char b1 < (256::nat)"
    by (simp_all add: of_char_def)
  have "x < 65536" using b0 b1 unfolding x_def by linarith
  then have u: "unat (word_of_nat x :: 16 word) = x"
    by (simp add: unat_of_nat)
  have "x mod 256 = of_char b0" unfolding x_def by simp
  then have "char_of (x mod 256) = b0" by simp
  then have "char_of x = b0" by (simp only: char_of_mod_256)
  moreover have "x div 256 = of_char b1" unfolding x_def by simp
  ultimately show ?thesis
    by (simp add: store_i16_def load_i16_def x_def [symmetric] u)
qed

lemma static_cast_Code_value: "static_cast_Code (char_of (Code_value c)) = Some c"
  by (cases c) (simp_all add: static_cast_Code_def all_codes_def)

lemma static_cast_Code_SomeD:
  assumes "static_cast_Code t = Some c"
  shows "t = char_of (Code_value c)"
proof -
  from assms have "Code_value c = of_char t"
    by (auto simp add: static_cast_Code_def find_Some_iff)
  then show ?thesis by simp
qed

lemma categories_iff: "c \<in> set categories \<longleftrightarrow> c \<noteq> kOk"
  by (cases c) (simp_all add: categories_def all_codes_def)

lemma length_encode_state: "length (encode_state c p m) = 7 + length m"
  by (simp add: encode_state_def store_u32_def store_i16_def)

lemma encode_state_tag: "encode_state c p m ! 4 = char_of (Code_value c)"
  by (simp add: encode_state_def store_u32_def)

lemma encode_state_length_field: "take 4 (encode_state c p m) = store_u32 (length m)"
  by (simp add: encode_state_def store_u32_def)

lemma encode_state_posix_field: "take 2 (drop 5 (encode_state c p m)) = store_i16 p"
  by (simp add: encode_state_def store_u32_def store_i16_def)

lemma encode_state_message_field: "drop 7 (encode_state c p m) = m"
  by (simp add: encode_state_def store_u32_def store_i16_def)

lemma wf_state_encode:
  "wf_state (encode_state c p m) \<longleftrightarrow> c \<noteq> kOk \<and> length m < 2 ^ 32"
  by (auto simp add: wf_state_def length_encode_state encode_state_tag
      encode_state_length_field static_cast_Code_value)

lemma length_stored_message: "length (stored_message m) < 2 ^ 32"
proof -
  have "length m mod 2 ^ 32 \<le> length m" by (rule mod_less_eq_dividend)
  then have "length (stored_message m) = length m mod 2 ^ 32"
    by (simp add: stored_message_def del: mod_less_eq_dividend)
  then show ?thesis by simp
qed

lemma stored_message_short: "length m < 2 ^ 32 \<Longrightarrow> stored_message m = m"
  by (simp add: stored_message_def)

lemma seven_bytes:
  assumes "7 \<le> length bs"
  obtains b0 b1 b2 b3 b4 b5 b6 r where "bs = b0 # b1 # b2 # b3 # b4 # b5 # b6 # r"
proof -
  from assms have "bs = take 7 bs @ drop 7 bs" "length (take 7 bs) = 7" by simp_all
  then obtain hd7 where h: "bs = hd7 @ drop 7 bs" "length hd7 = 7" by blast
  from h(2) obtain b0 b1 b2 b3 b4 b5 b6 where "hd7 = [b0, b1, b2, b3, b4, b5, b6]"
    by (auto simp add: length_Suc_conv numeral_eq_Suc)
  with h(1) that show thesis by simp
qed

lemma wf_state_decode:
  assumes "wf_state bs"
  obtains c p m where "c \<noteq> kOk" "length m < 2 ^ 32" "bs = encode_state c p m"
proof -
  from assms have len: "7 \<le> length bs" by (simp add: wf_state_def)
  then obtain b0 b1 b2 b3 b4 b5 b6 r where bs: "bs = b0 # b1 # b2 # b3 # b4 # b5 # b6 # r"
    by (rule seven_bytes)
  from assms bs obtain c where c: "static_cast_Code b4 = Some c" "c \<noteq> kOk"
    by (auto simp add: wf_state_def split: option.splits)
  from assms bs have l: "[b0, b1, b2, b3] = store_u32 (length r)" "length r < 2 ^ 32"
    by (simp_all add: wf_state_def)
  have "bs = encode_state c (load_i16 [b5, b6]) r"
    unfolding encode_state_def store_load_i16 l(1) [symmetric]
      static_cast_Code_SomeD [OF c(1), symmetric]
    by (simp add: bs)
  with c(2) l(2) that show thesis by blast
qed


section \<open>The heap and the readers\<close>

lemma blocks_fresh: "blocks h (next_addr h) = None"
  by (simp add: blocks_def next_addr_def)

lemma new_arr_heap:
  assumes "new_arr h bs = (h', a)"
  shows "a = next_addr h"
    and "blocks h' = (blocks h)(next_addr h \<mapsto> bs)"
    and "next_addr h' = Suc (next_addr h)"
  using assms by (auto simp add: new_arr_def blocks_def next_addr_def fun_eq_iff nth_append)

lemma delete_arr_heap:
  shows "blocks (delete_arr h p) = (\<lambda>x. if Some x = p then None else blocks h x)"
    and "next_addr (delete_arr h p) = next_addr h"
  by (auto simp add: delete_arr_def blocks_def next_addr_def fun_eq_iff nth_list_update
      split: option.splits)

text \<open>What the three readers return on a block with known fields.\<close>

lemma code_of_block:
  assumes "state s = Some a" "blocks h a = Some (encode_state c p m)"
  shows "code h s = Some c"
  using assms
  by (simp add: code_def load_def length_encode_state encode_state_tag static_cast_Code_value)

lemma posix_code_of_block:
  assumes "state s = Some a" "blocks h a = Some (encode_state c p m)"
  shows "posix_code h s = Some p"
  using assms
  by (simp add: posix_code_def load_range_def length_encode_state encode_state_posix_field
      load_store_i16)

lemma message_of_block:
  assumes "state s = Some a" "blocks h a = Some (encode_state c p m)"
  shows "message h s = Some (take (length m mod 2 ^ 32) m)"
proof -
  have "length m mod 2 ^ 32 \<le> length m" by (rule mod_less_eq_dividend)
  then show ?thesis using assms
    by (simp add: message_def load_range_def length_encode_state encode_state_length_field
        load_store_u32 encode_state_message_field del: mod_less_eq_dividend)
qed

lemma message_of_short_block:
  assumes "state s = Some a" "blocks h a = Some (encode_state c p m)" "length m < 2 ^ 32"
  shows "message h s = Some m"
  using message_of_block [OF assms(1,2)] assms(3) by simp

text \<open>The readers look at nothing but the block of the instance.\<close>

lemma readers_cong:
  assumes "state s = Some a" "state s' = Some a'" "blocks h' a' = blocks h a"
  shows "code h' s' = code h s" "message h' s' = message h s"
    "posix_code h' s' = posix_code h s" "ToString names h' s' = ToString names h s"
  using assms
  by (simp_all add: ToString_def CodeAsString_def ok_def code_def message_def posix_code_def
      load_def load_range_def)

lemma wf_cong:
  assumes "state s = Some a" "state s' = Some a'" "blocks h' a' = blocks h a"
  shows "wf_Status h' s' = wf_Status h s"
  using assms by (simp add: wf_Status_def)


lemma wf_readers:
  assumes "wf_Status h s" "state s = Some a"
  obtains c p m where "c \<noteq> kOk" "length m < 2 ^ 32" "blocks h a = Some (encode_state c p m)"
    "code h s = Some c" "posix_code h s = Some p" "message h s = Some m"
proof -
  from assms obtain bs where bs: "blocks h a = Some bs" "wf_state bs"
    by (auto simp add: wf_Status_def split: option.splits)
  from bs(2) obtain c p m where d: "c \<noteq> kOk" "length m < 2 ^ 32" "bs = encode_state c p m"
    by (rule wf_state_decode)
  from bs(1) d(3) have b: "blocks h a = Some (encode_state c p m)" by simp
  show thesis
    using d(1,2) b code_of_block [OF assms(2) b] posix_code_of_block [OF assms(2) b]
      message_of_short_block [OF assms(2) b d(2)]
    by (rule that)
qed


section \<open>The factories\<close>

lemma factory_ctor:
  "c \<noteq> kOk \<Longrightarrow>
   factory c h msg msg2 p =
     Status_ctor h c msg (default_msg2 msg2) (default_posix_code p)"
  by (cases c)
    (simp_all add: NotFound_def Corruption_def NotSupported_def InvalidArgument_def
      IOError_def AlreadyPresent_def RuntimeError_def NetworkError_def IllegalState_def
      NotAuthorized_def Aborted_def RemoteError_def ServiceUnavailable_def TimedOut_def
      Uninitialized_def ConfigurationError_def)

lemma Status_ctor_block:
  assumes "Status_ctor h c msg msg2 p = (h', s)"
  shows "state s = Some (next_addr h)"
    and "blocks h' =
           (blocks h)(next_addr h \<mapsto> encode_state c p (stored_message (combine msg msg2)))"
    and "next_addr h' = Suc (next_addr h)"
proof -
  obtain h'' a where
    n: "new_arr h (encode_state c p (stored_message (combine msg msg2))) = (h'', a)"
    by (cases "new_arr h (encode_state c p (stored_message (combine msg msg2)))")
  with assms have "h' = h''" "s = \<lparr>state = Some a\<rparr>"
    by (simp_all add: Status_ctor_def)
  with new_arr_heap [OF n]
  show "state s = Some (next_addr h)"
    and "blocks h' =
           (blocks h)(next_addr h \<mapsto> encode_state c p (stored_message (combine msg msg2)))"
    and "next_addr h' = Suc (next_addr h)"
    by simp_all
qed

lemma Is_code: "d \<noteq> kOk \<Longrightarrow> Is d h s = (code h s = Some d)"
  by (cases d)
    (simp_all add: IsNotFound_def IsCorruption_def IsNotSupported_def IsInvalidArgument_def
      IsIOError_def IsAlreadyPresent_def IsRuntimeError_def IsNetworkError_def
      IsIllegalState_def IsNotAuthorized_def IsAborted_def IsRemoteError_def
      IsServiceUnavailable_def IsTimedOut_def IsUninitialized_def IsConfigurationError_def)

lemma factory_readers:
  assumes "c \<noteq> kOk" "factory c h m1 m2 p = (h', s)"
  shows "state s = Some (next_addr h)"
    and "code h' s = Some c"
    and "posix_code h' s = Some (default_posix_code p)"
    and "message h' s =
           Some (take (length (combine m1 (default_msg2 m2)) mod 2 ^ 32)
                  (combine m1 (default_msg2 m2)))"
proof -
  from assms have ctor:
    "Status_ctor h c m1 (default_msg2 m2) (default_posix_code p) = (h', s)"
    by (simp add: factory_ctor)
  show st: "state s = Some (next_addr h)" by (rule Status_ctor_block(1) [OF ctor])
  have bl: "blocks h' (next_addr h) =
      Some (encode_state c (default_posix_code p)
              (stored_message (combine m1 (default_msg2 m2))))"
    by (simp add: Status_ctor_block(2) [OF ctor])
  show "code h' s = Some c" by (rule code_of_block [OF st bl])
  show "posix_code h' s = Some (default_posix_code p)" by (rule posix_code_of_block [OF st bl])
  show "message h' s =
           Some (take (length (combine m1 (default_msg2 m2)) mod 2 ^ 32)
                  (combine m1 (default_msg2 m2)))"
    using message_of_short_block [OF st bl length_stored_message]
    by (simp add: stored_message_def)
qed

lemma factory_heap:
  assumes "c \<noteq> kOk" "factory c h m1 m2 p = (h', s)"
  shows "blocks h' =
           (blocks h)(next_addr h \<mapsto>
              encode_state c (default_posix_code p)
                (stored_message (combine m1 (default_msg2 m2))))"
    and "next_addr h' = Suc (next_addr h)"
  using assms Status_ctor_block(2,3) [of h c m1 "default_msg2 m2" "default_posix_code p" h' s]
  by (simp_all add: factory_ctor)

lemma factory_live:
  assumes "c \<noteq> kOk" "factory c h m1 m2 p = (h', s)"
  shows "live h' s" "live h x \<Longrightarrow> live h' x"
proof -
  note f = factory_heap [OF assms] factory_readers(1) [OF assms]
  show "live h' s" by (simp add: live_def f)
  show "live h' x" if "live h x"
    using that blocks_fresh [of h] by (auto simp add: live_def f split: option.splits)
qed

lemma factory_wf:
  assumes "c \<noteq> kOk" "factory c h m1 m2 p = (h', s)"
  shows "wf_Status h' s"
  using assms(1) factory_readers(1) [OF assms] factory_heap(1) [OF assms]
    length_stored_message [of "combine m1 (default_msg2 m2)"]
  by (simp add: wf_Status_def wf_state_encode)



section \<open>Copying, assignment and cloning\<close>

lemma operator_assign_same:
  "state this = state s \<Longrightarrow> operator_assign h this s = Some (h, this)"
  by (simp add: operator_assign_def)

lemma operator_assign_ok:
  assumes "state this \<noteq> state s" "state s = None"
  shows "\<exists>h' this'. operator_assign h this s = Some (h', this') \<and> state this' = None \<and>
           blocks h' = (\<lambda>x. if Some x = state this then None else blocks h x) \<and>
           next_addr h' = next_addr h"
  using assms by (simp add: operator_assign_def Let_def delete_arr_heap)

lemma operator_assign_copy:
  assumes "state this \<noteq> state s" "state s = Some b" "blocks h b = Some bs"
  shows "\<exists>h' this'. operator_assign h this s = Some (h', this') \<and>
           state this' = Some (next_addr h) \<and>
           blocks h' =
             (\<lambda>x. if x = next_addr h then Some bs
                  else if Some x = state this then None else blocks h x) \<and>
           next_addr h' = Suc (next_addr h)"
proof -
  let ?h1 = "delete_arr h (state this)"
  obtain h' a where n: "new_arr ?h1 bs = (h', a)" by (cases "new_arr ?h1 bs")
  from assms have "blocks ?h1 b = Some bs" by (auto simp add: delete_arr_heap)
  with assms(1,2) n have "operator_assign h this s = Some (h', this\<lparr>state := Some a\<rparr>)"
    by (simp add: operator_assign_def Let_def CopyState_def)
  with new_arr_heap [OF n] show ?thesis
    by (auto simp add: delete_arr_heap fun_eq_iff)
qed

lemma Status_copy_ok:
  "state s = None \<Longrightarrow> Status_copy h s = Some (h, \<lparr>state = None\<rparr>)"
  by (simp add: Status_copy_def)

lemma Status_copy_block:
  assumes "state s = Some b" "blocks h b = Some bs"
  shows "\<exists>h'. Status_copy h s = Some (h', \<lparr>state = Some (next_addr h)\<rparr>) \<and>
           blocks h' = (blocks h)(next_addr h \<mapsto> bs) \<and> next_addr h' = Suc (next_addr h)"
proof -
  obtain h' a where n: "new_arr h bs = (h', a)" by (cases "new_arr h bs")
  with assms have "Status_copy h s = Some (h', \<lparr>state = Some a\<rparr>)"
    by (simp add: Status_copy_def CopyState_def)
  with new_arr_heap [OF n] show ?thesis by simp
qed

text \<open>
  An assignment from a live source returns; the destination then reads as the source did,
  and every other live block is as it was and is not the block of the destination.
\<close>

lemma operator_assign_result:
  assumes "live h s"
  shows "\<exists>h' this'. operator_assign h this s = Some (h', this') \<and>
           ok this' = ok s \<and> code h' this' = code h s \<and> message h' this' = message h s \<and>
           posix_code h' this' = posix_code h s \<and>
           (\<forall>y bs. blocks h y = Some bs \<and> state this \<noteq> Some y \<longrightarrow>
              blocks h' y = Some bs \<and> state this' \<noteq> Some y)"
proof -
  have fresh: "blocks h (next_addr h) = None" by (rule blocks_fresh)
  show ?thesis
  proof (cases "state this = state s")
    case True
    then show ?thesis
      by (simp add: operator_assign_same ok_def code_def message_def posix_code_def)
  next
    case diff: False
    show ?thesis
    proof (cases "state s")
      case None
      from operator_assign_ok [OF diff None, of h] obtain h' this' where
        r: "operator_assign h this s = Some (h', this')" "state this' = None"
          "blocks h' = (\<lambda>x. if Some x = state this then None else blocks h x)"
        by blast
      then show ?thesis using None
        by (auto simp add: ok_def code_def message_def posix_code_def)
    next
      case (Some b)
      with assms obtain cs where cs: "blocks h b = Some cs" by (auto simp add: live_def)
      from operator_assign_copy [OF diff Some cs] obtain h' this' where
        r: "operator_assign h this s = Some (h', this')" "state this' = Some (next_addr h)"
          "blocks h' = (\<lambda>x. if x = next_addr h then Some cs
                  else if Some x = state this then None else blocks h x)"
        by blast
      have new: "blocks h' (next_addr h) = blocks h b" by (simp add: r(3) cs)
      note rd = readers_cong(1-3) [OF Some r(2) new]
      have "blocks h' y = Some bs \<and> state this' \<noteq> Some y"
        if "blocks h y = Some bs" "state this \<noteq> Some y" for y bs
      proof -
        from that(1) fresh have "y \<noteq> next_addr h" by auto
        with that show ?thesis by (auto simp add: r(2,3))
      qed
      with r(1,2) Some rd show ?thesis by (simp add: ok_def)
    qed
  qed
qed

text \<open>
  \<open>b = a\<close>, by the copy constructor or by assignment to another object \<open>b0\<close>, returns when
  the pointer of \<open>a\<close> is live, and then either both are Ok or \<open>b\<close> has a fresh block of its
  own with the bytes of the block of \<open>a\<close>, which stays as it was.
\<close>

lemma copy_produces:
  assumes "live h a" and "state b0 = state a \<longrightarrow> ok a"
    and "r = Status_copy h a \<or> r = operator_assign h b0 a"
  shows "\<exists>h1 b. r = Some (h1, b) \<and>
           (case state a of
              None \<Rightarrow> state b = None
            | Some x \<Rightarrow> \<exists>y. state b = Some y \<and> y \<noteq> x \<and> blocks h y = None \<and>
                            blocks h x \<noteq> None \<and> blocks h1 y = blocks h x \<and>
                            blocks h1 x = blocks h x)"
proof (cases "state a")
  case None
  from assms(3) show ?thesis
  proof
    assume "r = Status_copy h a"
    with None show ?thesis by (simp add: Status_copy_ok)
  next
    assume r: "r = operator_assign h b0 a"
    show ?thesis
    proof (cases "state b0 = state a")
      case True
      with r None show ?thesis by (simp add: operator_assign_same)
    next
      case False
      from operator_assign_ok [OF False None, of h] r None show ?thesis by auto
    qed
  qed
next
  case (Some x)
  with assms(1) obtain bs where bs: "blocks h x = Some bs" by (auto simp add: live_def)
  have fresh: "blocks h (next_addr h) = None" by (rule blocks_fresh)
  with bs have nx: "next_addr h \<noteq> x" by auto
  from assms(3) have "\<exists>h1 b. r = Some (h1, b) \<and> state b = Some (next_addr h) \<and>
      blocks h1 (next_addr h) = Some bs \<and> blocks h1 x = Some bs"
  proof
    assume "r = Status_copy h a"
    with Status_copy_block [OF Some bs] nx bs show ?thesis by auto
  next
    assume r: "r = operator_assign h b0 a"
    from Some assms(2) have diff: "state b0 \<noteq> state a" by (auto simp add: ok_def)
    from operator_assign_copy [OF diff Some bs] r nx diff Some bs show ?thesis by auto
  qed
  with Some bs fresh nx show ?thesis by auto
qed




lemma CloneAndPrepend_block:
  assumes "state s = Some a" "code h s = Some c" "message h s = Some m"
    "posix_code h s = Some p"
  shows "\<exists>h'. CloneAndPrepend h s e = Some (h', \<lparr>state = Some (next_addr h)\<rparr>) \<and>
           blocks h' =
             (blocks h)(next_addr h \<mapsto> encode_state c p (stored_message (e @ '': '' @ m))) \<and>
           next_addr h' = Suc (next_addr h)"
proof -
  obtain h' b where
    n: "new_arr h (encode_state c p (stored_message (e @ '': '' @ m))) = (h', b)"
    by (cases "new_arr h (encode_state c p (stored_message (e @ '': '' @ m)))")
  with assms have "CloneAndPrepend h s e = Some (h', \<lparr>state = Some b\<rparr>)"
    by (simp add: CloneAndPrepend_def ok_def)
  with new_arr_heap [OF n] show ?thesis by simp
qed

lemma CloneAndPrepend_inv:
  assumes "wf_Status h s" "\<not> ok s" "message h s = Some m"
  shows "\<exists>h' s'. CloneAndPrepend h s e = Some (h', s') \<and>
           state s' = Some (next_addr h) \<and> state s' \<noteq> state s \<and>
           code h' s' = code h s \<and> posix_code h' s' = posix_code h s \<and>
           message h' s' = Some (stored_message (e @ '': '' @ m)) \<and> message h' s = Some m \<and>
           wf_Status h' s' \<and> wf_Status h' s"
proof -
  from assms(2) obtain a where a: "state s = Some a" by (auto simp add: ok_def)
  from wf_readers [OF assms(1) a] obtain c p m' where r: "c \<noteq> kOk"
    "blocks h a = Some (encode_state c p m')" "code h s = Some c" "posix_code h s = Some p"
    "message h s = Some m'"
    by metis
  from r(5) assms(3) have m: "message h s = Some m" by simp
  let ?n = "next_addr h"
  let ?s' = "\<lparr>state = Some ?n\<rparr>"
  let ?m = "stored_message (e @ '': '' @ m)"
  from CloneAndPrepend_block [OF a r(3) m r(4)] obtain h' where
    cl: "CloneAndPrepend h s e = Some (h', ?s')"
    and bh: "blocks h' = (blocks h)(?n \<mapsto> encode_state c p ?m)"
    by blast
  have len: "length ?m < 2 ^ 32" by (rule length_stored_message)
  have st: "state ?s' = Some ?n" by simp
  have bl: "blocks h' ?n = Some (encode_state c p ?m)" by (simp add: bh)
  from blocks_fresh [of h] r(2) have na: "?n \<noteq> a" by auto
  then have old: "blocks h' a = blocks h a" by (simp add: bh)
  have "state ?s' \<noteq> state s" using a na by simp
  moreover have "code h' ?s' = code h s"
    using code_of_block [OF st bl] r(3) by simp
  moreover have "posix_code h' ?s' = posix_code h s"
    using posix_code_of_block [OF st bl] r(4) by simp
  moreover have "message h' ?s' = Some ?m"
    by (rule message_of_short_block [OF st bl len])
  moreover have "message h' s = Some m"
    using readers_cong(2) [OF a a old] m by simp
  moreover have "wf_Status h' ?s'"
    using r(1) len by (simp add: wf_Status_def wf_state_encode bl)
  moreover have "wf_Status h' s"
    using wf_cong [OF a a old] assms(1) by simp
  ultimately show ?thesis using cl st by blast
qed

lemma CloneAndPrepend_wf:
  assumes "wf_Status h s" "\<not> ok s" "message h s = Some m"
    "length e + 2 + length m < 2 ^ 32"
  shows "\<exists>h' s'. CloneAndPrepend h s e = Some (h', s') \<and> state s' \<noteq> state s \<and>
           code h' s' = code h s \<and> posix_code h' s' = posix_code h s \<and>
           message h' s' = Some (e @ '': '' @ m) \<and> message h' s = Some m \<and>
           wf_Status h' s' \<and> wf_Status h' s"
proof -
  from assms(4) have "length (e @ '': '' @ m) < 2 ^ 32" by simp
  then have "stored_message (e @ '': '' @ m) = e @ '': '' @ m"
    by (rule stored_message_short)
  with CloneAndPrepend_inv [OF assms(1-3), of e] show ?thesis by auto
qed


section \<open>Categories and their predicates\<close>

text \<open>
  C1. For every error category \<open>c\<close>, whatever the message, the second message and the
  posix code (given or left out), the instance its factory returns satisfies the predicate
  of a category \<open>d\<close> exactly when \<open>d\<close> is \<open>c\<close>. On any instance the predicate of \<open>d\<close> holds
  exactly when a payload is present and the category read from its tag byte is \<open>d\<close>; so
  every predicate is false on \<open>OK()\<close>.
\<close>

theorem factory_Is_category:
  assumes "c \<in> set categories" and "d \<in> set categories"
  shows "(case factory c h m1 m2 p of (h', s) \<Rightarrow> Is d h' s \<longleftrightarrow> d = c) \<and>
         (Is d h x \<longleftrightarrow>
            (\<exists>a t. state x = Some a \<and> load h a 4 = Some t \<and> static_cast_Code t = Some d)) \<and>
         \<not> Is d h OK"
proof -
  from assms have c: "c \<noteq> kOk" and d: "d \<noteq> kOk" by (simp_all add: categories_iff)
  have "Is d h' s \<longleftrightarrow> d = c" if "factory c h m1 m2 p = (h', s)" for h' s
    using factory_readers(2) [OF c that] by (auto simp add: Is_code [OF d])
  moreover have "Is d h x \<longleftrightarrow>
      (\<exists>a t. state x = Some a \<and> load h a 4 = Some t \<and> static_cast_Code t = Some d)" for x
    using d by (auto simp add: Is_code [OF d] code_def bind_eq_Some_conv split: option.splits)
  moreover have "\<not> Is d h OK"
    using d by (auto simp add: Is_code [OF d] code_def OK_def Status_default_def)
  ultimately show ?thesis by (simp split: prod.splits)
qed

theorem factory_Is_category_witness:
  "kIOError \<in> set categories \<and> kTimedOut \<in> set categories \<and>
   (case factory kIOError empty_heap ''disk'' (Some ''full'') (Some 28) of
      (h', s) \<Rightarrow> IsIOError h' s \<and> \<not> IsTimedOut h' s) \<and>
   \<not> IsTimedOut empty_heap OK"
proof -
  have a: "kIOError \<in> set categories" and b: "kTimedOut \<in> set categories"
    by (simp_all add: categories_def all_codes_def)
  show ?thesis
    using factory_Is_category [OF a a, of empty_heap "''disk''" "Some ''full''" "Some 28" OK]
      factory_Is_category [OF a b, of empty_heap "''disk''" "Some ''full''" "Some 28" OK] a b
    by (auto split: prod.splits)
qed

text \<open>
  C2. \<open>ok()\<close> is true exactly when the instance has no payload: it is true of \<open>OK()\<close> and of
  a default-constructed instance, and false of what any of the sixteen factories returns.
\<close>

theorem ok_iff_no_payload:
  "(ok s \<longleftrightarrow> state s = None) \<and> ok OK \<and> ok Status_default \<and>
   (c \<in> set categories \<longrightarrow> \<not> ok (snd (factory c h m1 m2 p)))"
proof -
  have "\<not> ok (snd (factory c h m1 m2 p))" if "c \<in> set categories"
  proof -
    from that have c: "c \<noteq> kOk" by (simp add: categories_iff)
    obtain h' s where f: "factory c h m1 m2 p = (h', s)" by (cases "factory c h m1 m2 p")
    from factory_readers(1) [OF c f] f show ?thesis by (simp add: ok_def)
  qed
  then show ?thesis by (simp add: ok_def OK_def Status_default_def)
qed

theorem ok_iff_no_payload_witness:
  "kAborted \<in> set categories \<and> \<not> ok (snd (Aborted empty_heap ''stop'' None None)) \<and> ok OK"
  using ok_iff_no_payload [of Status_default kAborted empty_heap "''stop''" None None]
  by (simp add: categories_def all_codes_def)


section \<open>The message\<close>

text \<open>
  C3, as the claim states it, fails: the length of the message is kept in the four bytes
  \<open>state_[0..3]\<close>, which hold it modulo \<open>2 ^ 32\<close>. Of a message of \<open>2 ^ 32\<close> bytes and an
  empty second message, \<open>message()\<close> does not return the message.
\<close>

theorem message_counterexample:
  "message (fst (NotFound empty_heap (replicate 4294967296 CHR ''a'') (Some []) (Some 0)))
           (snd (NotFound empty_heap (replicate 4294967296 CHR ''a'') (Some []) (Some 0)))
   \<noteq> Some (replicate 4294967296 CHR ''a'')"
proof -
  obtain h' s where
    f: "factory kNotFound empty_heap (replicate 4294967296 CHR ''a'') (Some []) (Some 0) = (h', s)"
    by (cases "factory kNotFound empty_heap (replicate 4294967296 CHR ''a'') (Some []) (Some 0)")
  have "message h' s = Some []"
    using factory_readers(4) [OF _ f] by (simp add: combine_def default_msg2_def)
  with f show ?thesis by simp
qed

text \<open>
  C3, amended. For every error category and posix code: when both messages are non-empty
  and \<open>length m1 + 2 + length m2\<close> is below \<open>2 ^ 32\<close>, \<open>message()\<close> of the instance is
  \<open>m1\<close>, then \<open>": "\<close>, then \<open>m2\<close>; when the second message is empty or left out and
  \<open>length m1\<close> is below \<open>2 ^ 32\<close>, it is exactly \<open>m1\<close>. \<open>message()\<close> of \<open>OK()\<close> is empty.
\<close>

theorem factory_message:
  assumes "c \<in> set categories"
  shows "(m1 \<noteq> [] \<and> m2 \<noteq> [] \<and> length m1 + 2 + length m2 < 2 ^ 32 \<longrightarrow>
            (case factory c h m1 (Some m2) p of (h', s) \<Rightarrow>
               message h' s = Some (m1 @ '': '' @ m2))) \<and>
         (length m1 < 2 ^ 32 \<longrightarrow>
            (case factory c h m1 (Some []) p of (h', s) \<Rightarrow> message h' s = Some m1) \<and>
            (case factory c h m1 None p of (h', s) \<Rightarrow> message h' s = Some m1)) \<and>
         message h OK = Some []"
proof -
  from assms have c: "c \<noteq> kOk" by (simp add: categories_iff)
  have two: "message h' s = Some (m1 @ '': '' @ m2)"
    if "m1 \<noteq> []" "m2 \<noteq> []" "length m1 + 2 + length m2 < 2 ^ 32"
      "factory c h m1 (Some m2) p = (h', s)" for h' s
    using factory_readers(4) [OF c that(4)] that(1-3)
    by (simp add: combine_def default_msg2_def)
  have one: "message h' s = Some m1"
    if "length m1 < 2 ^ 32" "factory c h m1 m2' p = (h', s)" "default_msg2 m2' = []"
    for h' s m2'
    using factory_readers(4) [OF c that(2)] that(1,3) by (simp add: combine_def)
  have "message h OK = Some []"
    by (simp add: message_def OK_def Status_default_def)
  with two one show ?thesis
    by (simp add: default_msg2_def split: prod.splits)
qed

theorem factory_message_witness:
  "kNotFound \<in> set categories \<and>
   (case NotFound empty_heap ''key'' (Some ''absent'') (Some 2) of
      (h', s) \<Rightarrow> message h' s = Some ''key: absent'') \<and>
   (case NotFound empty_heap ''key'' None None of (h', s) \<Rightarrow> message h' s = Some ''key'')"
proof -
  have a: "kNotFound \<in> set categories" by (simp add: categories_def all_codes_def)
  show ?thesis
    using factory_message [OF a, of "''key''" "''absent''" empty_heap "Some 2"]
      factory_message [OF a, of "''key''" "''absent''" empty_heap None] a
    by (simp split: prod.splits)
qed


section \<open>The printed form\<close>

text \<open>
  C4. \<open>ToString()\<close> of an Ok instance is \<open>"OK"\<close>. Of an instance that is not Ok, with
  category \<open>c\<close>, message \<open>m\<close> and posix code \<open>p\<close>, it is the display name of \<open>c\<close>, then
  \<open>": "\<close>, then \<open>m\<close>, and then \<open>" (error p)"\<close> with \<open>p\<close> in decimal exactly when \<open>p\<close> is not
  \<open>-1\<close>; a well-formed instance that is not Ok has such a category, message and posix
  code. The result depends on the block of the instance only: as long as the block is
  the same, a second call returns what the first returned.
\<close>

theorem ToString_format:
  "(ok s \<longrightarrow> ToString names h s = Some ''OK'') \<and> ToString names h OK = Some ''OK'' \<and>
   (\<not> ok s \<and> code h s = Some c \<and> message h s = Some m \<and> posix_code h s = Some p \<longrightarrow>
      ToString names h s =
        Some (names c @ '': '' @ m @
              (if p = - 1 then [] else '' (error '' @ dec_int (sint p) @ '')''))) \<and>
   (wf_Status h s \<and> \<not> ok s \<longrightarrow>
      (\<exists>c' m' p'. c' \<in> set categories \<and> code h s = Some c' \<and> message h s = Some m' \<and>
         posix_code h s = Some p')) \<and>
   ((\<forall>a. state s = Some a \<longrightarrow> blocks h2 a = blocks h a) \<longrightarrow>
      ToString names h2 s = ToString names h s)"
proof -
  have ok: "ToString names h x = Some ''OK''" if "ok x" for x
    using that by (simp add: ToString_def)
  have "ok OK" by (simp add: ok_def OK_def Status_default_def)
  then have ok': "ToString names h OK = Some ''OK''" by (rule ok)
  have fmt: "ToString names h s =
        Some (names c @ '': '' @ m @
              (if p = - 1 then [] else '' (error '' @ dec_int (sint p) @ '')''))"
    if "\<not> ok s" "code h s = Some c" "message h s = Some m" "posix_code h s = Some p"
    using that by (simp add: ToString_def CodeAsString_def posix_suffix_def)
  have ex: "\<exists>c' m' p'. c' \<in> set categories \<and> code h s = Some c' \<and> message h s = Some m' \<and>
         posix_code h s = Some p'" if "wf_Status h s" "\<not> ok s"
  proof -
    from that(2) obtain a where a: "state s = Some a" by (auto simp add: ok_def)
    from wf_readers [OF that(1) a] show ?thesis
      by (metis categories_iff)
  qed
  have same: "ToString names h2 s = ToString names h s"
    if "\<forall>a. state s = Some a \<longrightarrow> blocks h2 a = blocks h a"
  proof (cases "state s")
    case None
    then show ?thesis by (simp add: ToString_def ok_def)
  next
    case (Some a)
    with that have "blocks h2 a = blocks h a" by simp
    from readers_cong(4) [OF Some Some this] show ?thesis .
  qed
  from ok ok' fmt ex same show ?thesis by blast
qed

theorem ToString_format_witness:
  "(case IOError empty_heap ''disk'' (Some ''full'') (Some 28) of
      (h, s) \<Rightarrow> wf_Status h s \<and> \<not> ok s \<and> code h s = Some kIOError \<and>
        message h s = Some ''disk: full'' \<and> posix_code h s = Some 28 \<and>
        ToString (\<lambda>c. ''IO error'') h s = Some ''IO error: disk: full (error 28)'')"
proof -
  have n: "kIOError \<noteq> kOk" by simp
  obtain h s where
    f: "factory kIOError empty_heap ''disk'' (Some ''full'') (Some 28) = (h, s)"
    by (cases "factory kIOError empty_heap ''disk'' (Some ''full'') (Some 28)")
  note r = factory_readers [OF n f]
  have nok: "\<not> ok s" using r(1) by (simp add: ok_def)
  have w: "wf_Status h s"
    by (rule factory_wf [OF n f])
  have d: "dec_int (sint (28 :: 16 word)) = ''28''"
    by (simp add: dec_int_def dec_digits.simps char_of_eq_iff)
  show ?thesis
    using ToString_format [of s "\<lambda>c. ''IO error''" h kIOError "''disk: full''" 28 h] f r nok w d
    by (simp add: combine_def default_msg2_def default_posix_code_def)
qed


section \<open>Cloning with a prefix\<close>

text \<open>
  C5, as the claim states it, fails for the same reason as C3. \<open>NotFound("x")\<close> has the
  message \<open>"x"\<close>; cloned with a prefix of \<open>2 ^ 32\<close> bytes, its message is not the prefix,
  \<open>": "\<close> and \<open>"x"\<close>.
\<close>

theorem CloneAndPrepend_counterexample:
  "message (fst (NotFound empty_heap ''x'' None None))
           (snd (NotFound empty_heap ''x'' None None)) = Some ''x'' \<and>
   returned_message
     (CloneAndPrepend (fst (NotFound empty_heap ''x'' None None))
        (snd (NotFound empty_heap ''x'' None None)) (replicate 4294967296 CHR ''a''))
   \<noteq> Some (replicate 4294967296 CHR ''a'' @ '': '' @ ''x'')"
proof -
  have n: "kNotFound \<noteq> kOk" by simp
  obtain h s where f: "factory kNotFound empty_heap ''x'' None None = (h, s)"
    by (cases "factory kNotFound empty_heap ''x'' None None")
  note r = factory_readers [OF n f]
  have m: "message h s = Some ''x''"
    using r(4) by (simp add: combine_def default_msg2_def)
  let ?e = "replicate 4294967296 CHR ''a''"
  let ?s' = "\<lparr>state = Some (next_addr h)\<rparr>"
  from CloneAndPrepend_block [OF r(1,2) m r(3), of "replicate 4294967296 CHR ''a''"]
  obtain h' where
    cl: "CloneAndPrepend h s ?e = Some (h', ?s')"
    and bh: "blocks h' (next_addr h) =
      Some (encode_state kNotFound (default_posix_code None)
              (stored_message (?e @ '': '' @ ''x'')))"
    by auto
  have "message h' ?s' = Some (stored_message (?e @ '': '' @ ''x''))"
    by (rule message_of_short_block [OF _ bh length_stored_message]) simp
  then have "message h' ?s' = Some (replicate 3 CHR ''a'')"
    by (simp add: stored_message_def)
  then have "returned_message (CloneAndPrepend h s ?e) = Some (replicate 3 CHR ''a'')"
    by (simp add: cl returned_message_def)
  moreover have "length (replicate 3 CHR ''a'') \<noteq> length (?e @ '': '' @ ''x'')" by simp
  ultimately have "returned_message (CloneAndPrepend h s ?e) \<noteq> Some (?e @ '': '' @ ''x'')"
    by (metis option.inject)
  with m f show ?thesis by simp
qed

text \<open>
  C5, amended. Let \<open>s\<close> be a well-formed instance that is not Ok, with message \<open>m\<close>, and
  let \<open>length e + 2 + length m\<close> be below \<open>2 ^ 32\<close>. Then \<open>s.CloneAndPrepend(e)\<close> returns a
  new instance with the category and the posix code of \<open>s\<close> and the message \<open>e\<close>, \<open>": "\<close>,
  \<open>m\<close>, and \<open>s\<close> keeps its message. In any heap, \<open>NotFound("missing")\<close> cloned with
  \<open>"ctx"\<close> satisfies \<open>IsNotFound()\<close> and has the message \<open>"ctx: missing"\<close>.
\<close>

theorem CloneAndPrepend_message:
  assumes "wf_Status h s" and "\<not> ok s" and "message h s = Some m"
    and "length e + 2 + length m < 2 ^ 32"
  shows "(\<exists>h' s'. CloneAndPrepend h s e = Some (h', s') \<and> state s' \<noteq> state s \<and>
            code h' s' = code h s \<and> posix_code h' s' = posix_code h s \<and>
            message h' s' = Some (e @ '': '' @ m) \<and> message h' s = Some m) \<and>
         (case NotFound h0 ''missing'' None None of
            (h1, s1) \<Rightarrow>
              \<exists>h2 s2. CloneAndPrepend h1 s1 ''ctx'' = Some (h2, s2) \<and> IsNotFound h2 s2 \<and>
                message h2 s2 = Some ''ctx: missing'')"
proof -
  have ex: "\<exists>h2 s2. CloneAndPrepend h1 s1 ''ctx'' = Some (h2, s2) \<and> IsNotFound h2 s2 \<and>
                   message h2 s2 = Some ''ctx: missing''"
    if f: "factory kNotFound h0 ''missing'' None None = (h1, s1)" for h1 s1
  proof -
    have n: "kNotFound \<noteq> kOk" by simp
    note r = factory_readers [OF n f]
    have m1: "message h1 s1 = Some ''missing''"
      using r(4) by (simp add: combine_def default_msg2_def)
    have w: "wf_Status h1 s1"
      by (rule factory_wf [OF n f])
    have nok: "\<not> ok s1" using r(1) by (simp add: ok_def)
    have "length ''ctx'' + 2 + length ''missing'' < (2::nat) ^ 32" by simp
    from CloneAndPrepend_wf [OF w nok m1 this]
    show ?thesis using r(2) by (auto simp add: IsNotFound_def)
  qed
  from CloneAndPrepend_wf [OF assms] ex show ?thesis
    by (auto split: prod.splits)
qed

theorem CloneAndPrepend_message_witness:
  "(case Corruption empty_heap ''bad crc'' (Some ''block 7'') (Some 5) of
      (h, s) \<Rightarrow>
        wf_Status h s \<and> \<not> ok s \<and> message h s = Some ''bad crc: block 7'' \<and>
        length ''scan'' + 2 + length ''bad crc: block 7'' < (2::nat) ^ 32 \<and>
        (\<exists>h' s'. CloneAndPrepend h s ''scan'' = Some (h', s') \<and> IsCorruption h' s' \<and>
           posix_code h' s' = Some 5 \<and> message h' s' = Some ''scan: bad crc: block 7'')) \<and>
   (case NotFound empty_heap ''missing'' None None of
      (h1, s1) \<Rightarrow>
        \<exists>h2 s2. CloneAndPrepend h1 s1 ''ctx'' = Some (h2, s2) \<and> IsNotFound h2 s2 \<and>
          message h2 s2 = Some ''ctx: missing'')"
proof -
  have n: "kCorruption \<noteq> kOk" by simp
  obtain h s where
    f: "factory kCorruption empty_heap ''bad crc'' (Some ''block 7'') (Some 5) = (h, s)"
    by (cases "factory kCorruption empty_heap ''bad crc'' (Some ''block 7'') (Some 5)")
  note r = factory_readers [OF n f]
  have m: "message h s = Some ''bad crc: block 7''"
    using r(4) by (simp add: combine_def default_msg2_def)
  have w: "wf_Status h s"
    by (rule factory_wf [OF n f])
  have nok: "\<not> ok s" using r(1) by (simp add: ok_def)
  have len: "length ''scan'' + 2 + length ''bad crc: block 7'' < (2::nat) ^ 32" by simp
  note t = CloneAndPrepend_message [OF w nok m len, of empty_heap]
  from t [THEN conjunct1] obtain h' s' where c: "CloneAndPrepend h s ''scan'' = Some (h', s')"
    "code h' s' = code h s" "posix_code h' s' = posix_code h s"
    "message h' s' = Some (''scan'' @ '': '' @ ''bad crc: block 7'')"
    by (elim exE conjE)
  note e = t [THEN conjunct2]
  show ?thesis
    using f w nok m r(2,3) c e
    by (simp add: IsCorruption_def default_posix_code_def)
qed


section \<open>The posix code\<close>

text \<open>
  C6. \<open>posix_code()\<close> is \<open>-1\<close> on \<open>OK()\<close> and on what a factory called without a posix code
  returns; on what a factory called with the posix code \<open>p\<close> returns it is \<open>p\<close>, for every
  \<open>int16_t\<close> value \<open>p\<close> and so for every \<open>p \<ge> 0\<close>.
\<close>

theorem factory_posix_code:
  assumes "c \<in> set categories"
  shows "posix_code h OK = Some (- 1) \<and>
         (case factory c h m1 m2 None of (h', s) \<Rightarrow> posix_code h' s = Some (- 1)) \<and>
         (case factory c h m1 m2 (Some p) of (h', s) \<Rightarrow> posix_code h' s = Some p)"
proof -
  from assms have c: "c \<noteq> kOk" by (simp add: categories_iff)
  have "posix_code h' s = Some (default_posix_code q)"
    if "factory c h m1 m2 q = (h', s)" for h' s q
    by (rule factory_readers(3) [OF c that])
  then show ?thesis
    by (simp add: default_posix_code_def posix_code_def OK_def Status_default_def
        split: prod.splits)
qed

theorem factory_posix_code_witness:
  "kIOError \<in> set categories \<and>
   (case IOError empty_heap ''read'' None None of (h', s) \<Rightarrow> posix_code h' s = Some (- 1)) \<and>
   (case IOError empty_heap ''read'' None (Some 5) of (h', s) \<Rightarrow> posix_code h' s = Some 5)"
proof -
  have a: "kIOError \<in> set categories" by (simp add: categories_def all_codes_def)
  show ?thesis
    using factory_posix_code [OF a, of empty_heap "''read''" None 5] a
    by (simp split: prod.splits)
qed


section \<open>Assignment and copies\<close>

text \<open>
  C7. \<open>operator=\<close> compares the two \<open>state_\<close> pointers. When they are equal, which is the
  case of self-assignment and of two Ok instances, it returns the heap and the destination
  as they were: nothing is allocated or freed. When they differ, which under exclusive
  ownership is every other case, the old block of the destination is no longer live, and
  the destination is Ok with nothing allocated when the source is Ok, and otherwise points
  to a fresh block with the bytes of the source's block, which stays as it was. In all
  cases the assignment returns, and \<open>ok()\<close>, the category, \<open>message()\<close> and \<open>posix_code()\<close>
  of the destination afterwards are those of the source before.
\<close>

theorem operator_assign_copies:
  assumes "live h this" and "live h s"
  shows "operator_assign h s s = Some (h, s) \<and>
         (ok this \<and> ok s \<longrightarrow> operator_assign h this s = Some (h, this)) \<and>
         (state this = state s \<longrightarrow> operator_assign h this s = Some (h, this)) \<and>
         (\<exists>h' this'. operator_assign h this s = Some (h', this') \<and>
            (state this \<noteq> state s \<longrightarrow>
               (\<forall>a. state this = Some a \<longrightarrow> blocks h' a = None) \<and>
               (ok s \<longrightarrow> ok this' \<and> next_addr h' = next_addr h) \<and>
               (\<forall>b. state s = Some b \<longrightarrow>
                  (\<exists>a'. state this' = Some a' \<and> a' \<noteq> b \<and> blocks h a' = None \<and>
                        blocks h' a' = blocks h b \<and> blocks h' b = blocks h b))) \<and>
            ok this' = ok s \<and> code h' this' = code h s \<and>
            message h' this' = message h s \<and> posix_code h' this' = posix_code h s)"
proof -
  have self: "operator_assign h s s = Some (h, s)"
    by (simp add: operator_assign_same)
  have both: "operator_assign h this s = Some (h, this)" if "ok this" "ok s"
    using that by (simp add: operator_assign_same ok_def)
  have same: "operator_assign h this s = Some (h, this)" if "state this = state s"
    using that by (rule operator_assign_same)
  have main: "\<exists>h' this'. operator_assign h this s = Some (h', this') \<and>
            (state this \<noteq> state s \<longrightarrow>
               (\<forall>a. state this = Some a \<longrightarrow> blocks h' a = None) \<and>
               (ok s \<longrightarrow> ok this' \<and> next_addr h' = next_addr h) \<and>
               (\<forall>b. state s = Some b \<longrightarrow>
                  (\<exists>a'. state this' = Some a' \<and> a' \<noteq> b \<and> blocks h a' = None \<and>
                        blocks h' a' = blocks h b \<and> blocks h' b = blocks h b))) \<and>
            ok this' = ok s \<and> code h' this' = code h s \<and>
            message h' this' = message h s \<and> posix_code h' this' = posix_code h s"
  proof (cases "state this = state s")
    case True
    then show ?thesis
      by (simp add: operator_assign_same ok_def code_def message_def posix_code_def)
  next
    case diff: False
    show ?thesis
    proof (cases "state s")
      case None
      from operator_assign_ok [OF diff None, of h] obtain h' this' where
        r: "operator_assign h this s = Some (h', this')" "state this' = None"
          "blocks h' = (\<lambda>x. if Some x = state this then None else blocks h x)"
          "next_addr h' = next_addr h"
        by blast
      then show ?thesis using None diff
        by (simp add: ok_def code_def message_def posix_code_def)
    next
      case (Some b)
      with assms(2) obtain bs where bs: "blocks h b = Some bs"
        by (auto simp add: live_def)
      from operator_assign_copy [OF diff Some bs] obtain h' this' where
        r: "operator_assign h this s = Some (h', this')" "state this' = Some (next_addr h)"
          "blocks h' = (\<lambda>x. if x = next_addr h then Some bs
                  else if Some x = state this then None else blocks h x)"
          "next_addr h' = Suc (next_addr h)"
        by blast
      have fresh: "blocks h (next_addr h) = None" by (rule blocks_fresh)
      with bs have nb: "next_addr h \<noteq> b" by auto
      have old: "blocks h' a = None" if "state this = Some a" for a
      proof -
        from assms(1) that have "blocks h a \<noteq> None" by (simp add: live_def)
        with fresh have "a \<noteq> next_addr h" by auto
        with that show ?thesis by (simp add: r(3))
      qed
      have new: "blocks h' (next_addr h) = blocks h b" by (simp add: r(3) bs)
      have src: "blocks h' b = blocks h b" using nb diff Some by (auto simp add: r(3))
      note rd = readers_cong [OF Some r(2) new]
      show ?thesis
        using r(1,2) Some diff old new src nb fresh rd(1-3)
        by (simp add: ok_def)
    qed
  qed
  from self both same main show ?thesis by blast
qed

theorem operator_assign_copies_witness:
  "(case NotFound empty_heap ''x'' None None of
      (h1, a) \<Rightarrow>
        (case IOError h1 ''y'' None (Some 5) of
           (h2, s) \<Rightarrow>
             live h2 a \<and> live h2 s \<and> state a \<noteq> state s \<and>
             (\<exists>h3 a'. operator_assign h2 a s = Some (h3, a') \<and>
                blocks h3 0 = None \<and> IsIOError h3 a' \<and>
                message h3 a' = Some ''y'' \<and> posix_code h3 a' = Some 5)))"
proof -
  have n1: "kNotFound \<noteq> kOk" and n2: "kIOError \<noteq> kOk" by simp_all
  obtain h1 a where f1: "factory kNotFound empty_heap ''x'' None None = (h1, a)"
    by (cases "factory kNotFound empty_heap ''x'' None None")
  obtain h2 s where f2: "factory kIOError h1 ''y'' None (Some 5) = (h2, s)"
    by (cases "factory kIOError h1 ''y'' None (Some 5)")
  have l1: "live h1 a" by (rule factory_live(1) [OF n1 f1])
  have l2: "live h2 s" "live h2 a"
    using factory_live [OF n2 f2] l1 by simp_all
  have a: "state a = Some 0" "next_addr h1 = 1"
    using factory_readers(1) [OF n1 f1] factory_heap(2) [OF n1 f1]
    by (simp_all add: empty_heap_def next_addr_def)
  have s: "state s = Some 1"
    using factory_readers(1) [OF n2 f2] a(2) by simp
  note r = factory_readers(2-4) [OF n2 f2]
  from operator_assign_copies [OF l2(2,1)] obtain h3 a' where
    "operator_assign h2 a s = Some (h3, a')"
    "state a \<noteq> state s \<longrightarrow>
       (\<forall>x. state a = Some x \<longrightarrow> blocks h3 x = None) \<and>
       (\<forall>b. state s = Some b \<longrightarrow>
          (\<exists>a''. state a' = Some a'' \<and> a'' \<noteq> b \<and> blocks h2 a'' = None \<and>
                blocks h3 a'' = blocks h2 b \<and> blocks h3 b = blocks h2 b))"
    "code h3 a' = code h2 s" "message h3 a' = message h2 s"
    "posix_code h3 a' = posix_code h2 s"
    by blast
  then show ?thesis
    using f1 f2 l2 a s r
    by (simp add: combine_def default_msg2_def default_posix_code_def IsIOError_def)
qed

text \<open>
  C8. Let the pointer of \<open>a\<close> be live, and let \<open>b = a\<close> be run by the copy constructor or
  by assignment to another object \<open>b0\<close>. The copy returns; \<open>ok()\<close>, the category,
  \<open>message()\<close> and \<open>posix_code()\<close> of \<open>b\<close> are those of \<open>a\<close>; and when \<open>a\<close> is not Ok, \<open>b\<close> has
  a fresh block of its own with the bytes of the block of \<open>a\<close>, which stays as it was. Let
  \<open>a\<close> then be assigned any value \<open>c\<close>: one that exists already, or one that a factory
  builds after the copy. The assignment returns and \<open>a\<close> reads as \<open>c\<close>; the block of \<open>b\<close>
  is as it was and is not the block of \<open>a\<close>; and the category, \<open>message()\<close> and
  \<open>posix_code()\<close> of \<open>b\<close> are those it had after the copy.
\<close>

theorem copy_independent:
  assumes "live h a" and "state b0 = state a \<longrightarrow> ok a"
    and "r = Status_copy h a \<or> r = operator_assign h b0 a"
  shows "\<exists>h1 b. r = Some (h1, b) \<and>
           (ok b = ok a \<and> code h1 b = code h a \<and> message h1 b = message h a \<and>
            posix_code h1 b = posix_code h a) \<and>
           (\<forall>x. state a = Some x \<longrightarrow>
              (\<exists>y. state b = Some y \<and> y \<noteq> x \<and> blocks h y = None \<and>
                   blocks h1 y = blocks h x \<and> blocks h1 x = blocks h x)) \<and>
           (\<forall>h1' c.
              (h1' = h1 \<and> live h1 c) \<or>
              (\<exists>k m1 m2 p. k \<in> set categories \<and> factory k h1 m1 m2 p = (h1', c)) \<longrightarrow>
              (\<exists>h2 a'. operator_assign h1' a c = Some (h2, a') \<and>
                 (ok a' = ok c \<and> code h2 a' = code h1' c \<and> message h2 a' = message h1' c \<and>
                  posix_code h2 a' = posix_code h1' c) \<and>
                 (code h2 b = code h1 b \<and> message h2 b = message h1 b \<and>
                  posix_code h2 b = posix_code h1 b) \<and>
                 (\<forall>y. state b = Some y \<longrightarrow> blocks h2 y = blocks h1 y \<and> state a' \<noteq> Some y)))"
proof -
  from copy_produces [OF assms] obtain h1 b where r: "r = Some (h1, b)"
    and sep: "case state a of
              None \<Rightarrow> state b = None
            | Some x \<Rightarrow> \<exists>y. state b = Some y \<and> y \<noteq> x \<and> blocks h y = None \<and>
                            blocks h x \<noteq> None \<and> blocks h1 y = blocks h x \<and>
                            blocks h1 x = blocks h x"
    by blast
  have same: "ok b = ok a \<and> code h1 b = code h a \<and> message h1 b = message h a \<and>
            posix_code h1 b = posix_code h a"
  proof (cases "state a")
    case None
    with sep show ?thesis by (simp add: ok_def code_def message_def posix_code_def)
  next
    case (Some x)
    with sep obtain y where y: "state b = Some y" "blocks h1 y = blocks h x" by auto
    from readers_cong(1-3) [OF Some y] Some y(1) show ?thesis by (simp add: ok_def)
  qed
  have own: "\<forall>x. state a = Some x \<longrightarrow>
              (\<exists>y. state b = Some y \<and> y \<noteq> x \<and> blocks h y = None \<and>
                   blocks h1 y = blocks h x \<and> blocks h1 x = blocks h x)"
    using sep by auto
  have again: "\<exists>h2 a'. operator_assign h1' a c = Some (h2, a') \<and>
                 (ok a' = ok c \<and> code h2 a' = code h1' c \<and> message h2 a' = message h1' c \<and>
                  posix_code h2 a' = posix_code h1' c) \<and>
                 (code h2 b = code h1 b \<and> message h2 b = message h1 b \<and>
                  posix_code h2 b = posix_code h1 b) \<and>
                 (\<forall>y. state b = Some y \<longrightarrow> blocks h2 y = blocks h1 y \<and> state a' \<noteq> Some y)"
    if c: "(h1' = h1 \<and> live h1 c) \<or>
           (\<exists>k m1 m2 p. k \<in> set categories \<and> factory k h1 m1 m2 p = (h1', c))"
    for h1' c
  proof -
    from c have ext: "live h1' c \<and> (\<forall>y bs. blocks h1 y = Some bs \<longrightarrow> blocks h1' y = Some bs)"
    proof
      assume "h1' = h1 \<and> live h1 c"
      then show ?thesis by simp
    next
      assume "\<exists>k m1 m2 p. k \<in> set categories \<and> factory k h1 m1 m2 p = (h1', c)"
      then obtain k m1 m2 p where k: "k \<noteq> kOk" and f: "factory k h1 m1 m2 p = (h1', c)"
        by (auto simp add: categories_iff)
      have "blocks h1' y = Some bs" if "blocks h1 y = Some bs" for y bs
        using that blocks_fresh [of h1] by (auto simp add: factory_heap(1) [OF k f])
      with factory_live(1) [OF k f] show ?thesis by blast
    qed
    from operator_assign_result [of h1' c a] ext obtain h2 a' where
      as: "operator_assign h1' a c = Some (h2, a')"
        "ok a' = ok c \<and> code h2 a' = code h1' c \<and> message h2 a' = message h1' c \<and>
         posix_code h2 a' = posix_code h1' c"
      and frame: "\<forall>y bs. blocks h1' y = Some bs \<and> state a \<noteq> Some y \<longrightarrow>
              blocks h2 y = Some bs \<and> state a' \<noteq> Some y"
      by blast
    have keep: "code h2 b = code h1 b \<and> message h2 b = message h1 b \<and>
                  posix_code h2 b = posix_code h1 b \<and>
                 (\<forall>y. state b = Some y \<longrightarrow> blocks h2 y = blocks h1 y \<and> state a' \<noteq> Some y)"
    proof (cases "state b")
      case None
      then show ?thesis by (simp add: code_def message_def posix_code_def)
    next
      case (Some y)
      with sep obtain x bs where x: "state a = Some x" "y \<noteq> x" "blocks h1 y = Some bs"
        by (cases "state a") auto
      from ext x(3) have "blocks h1' y = Some bs" by blast
      with frame x(1,2) have k: "blocks h2 y = Some bs" "state a' \<noteq> Some y" by auto
      with x(3) have after: "blocks h2 y = blocks h1 y" by simp
      from readers_cong(1-3) [OF Some Some after] Some after k(2) show ?thesis by simp
    qed
    from as keep show ?thesis by blast
  qed
  from r same own again show ?thesis by blast
qed

theorem copy_independent_witness:
  "(case NotFound empty_heap ''key'' None (Some 2) of
      (h, a) \<Rightarrow>
        live h a \<and> (state OK = state a \<longrightarrow> ok a) \<and>
        (\<exists>h1 b. Status_copy h a = Some (h1, b) \<and> state b \<noteq> state a \<and>
           IsNotFound h1 b \<and>
           (case Corruption h1 ''bad block'' None None of
              (h1', c) \<Rightarrow>
                kCorruption \<in> set categories \<and>
                (\<exists>h2 a'. operator_assign h1' a c = Some (h2, a') \<and>
                   IsCorruption h2 a' \<and> message h2 a' = Some ''bad block'' \<and>
                   IsNotFound h2 b \<and> message h2 b = Some ''key'' \<and>
                   posix_code h2 b = Some 2))))"
proof -
  have cat: "kCorruption \<in> set categories" by (simp add: categories_def all_codes_def)
  have n1: "kNotFound \<noteq> kOk" and n2: "kCorruption \<noteq> kOk" by simp_all
  obtain h a where f1: "factory kNotFound empty_heap ''key'' None (Some 2) = (h, a)"
    by (cases "factory kNotFound empty_heap ''key'' None (Some 2)")
  note la = factory_live(1) [OF n1 f1]
  note ra = factory_readers [OF n1 f1]
  have d: "state OK = state a \<longrightarrow> ok a"
    using ra(1) by (simp add: OK_def Status_default_def)
  from copy_independent [OF la d disjI1 [OF refl]] obtain h1 b where
    cp: "Status_copy h a = Some (h1, b)"
    and same: "code h1 b = code h a" "message h1 b = message h a"
      "posix_code h1 b = posix_code h a"
    and own: "\<forall>x. state a = Some x \<longrightarrow>
              (\<exists>y. state b = Some y \<and> y \<noteq> x \<and> blocks h y = None \<and>
                   blocks h1 y = blocks h x \<and> blocks h1 x = blocks h x)"
    and again: "\<forall>h1' c.
              (h1' = h1 \<and> live h1 c) \<or>
              (\<exists>k m1 m2 p. k \<in> set categories \<and> factory k h1 m1 m2 p = (h1', c)) \<longrightarrow>
              (\<exists>h2 a'. operator_assign h1' a c = Some (h2, a') \<and>
                 (ok a' = ok c \<and> code h2 a' = code h1' c \<and> message h2 a' = message h1' c \<and>
                  posix_code h2 a' = posix_code h1' c) \<and>
                 (code h2 b = code h1 b \<and> message h2 b = message h1 b \<and>
                  posix_code h2 b = posix_code h1 b) \<and>
                 (\<forall>y. state b = Some y \<longrightarrow> blocks h2 y = blocks h1 y \<and> state a' \<noteq> Some y))"
    by (elim exE conjE)
  from own ra(1) have ne: "state b \<noteq> state a" by auto
  obtain h1' c where f2: "factory kCorruption h1 ''bad block'' None None = (h1', c)"
    by (cases "factory kCorruption h1 ''bad block'' None None")
  note rc = factory_readers [OF n2 f2]
  from cat f2 have "(h1' = h1 \<and> live h1 c) \<or>
      (\<exists>k m1 m2 p. k \<in> set categories \<and> factory k h1 m1 m2 p = (h1', c))"
    by blast
  with again obtain h2 a' where
    as: "operator_assign h1' a c = Some (h2, a')"
      "code h2 a' = code h1' c" "message h2 a' = message h1' c"
      "code h2 b = code h1 b" "message h2 b = message h1 b" "posix_code h2 b = posix_code h1 b"
    by blast
  show ?thesis
    using f1 la d cp ne f2 cat as same ra(2-4) rc(2-4)
    by (simp add: IsNotFound_def IsCorruption_def combine_def default_msg2_def
        default_posix_code_def)
qed


section \<open>The representation invariant\<close>




section \<open>A posix code of \<open>-1\<close>\<close>

text \<open>
  C10. A factory called with the posix code \<open>-1\<close> returns the same heap and the same
  instance as the factory called with the posix code left out, so \<open>ok()\<close>, every
  category predicate, \<open>message()\<close>, \<open>posix_code()\<close> and \<open>ToString()\<close> agree on the two.
  \<open>posix_code()\<close> of that instance is \<open>-1\<close>, and its \<open>ToString()\<close> is the display name,
  \<open>": "\<close> and the message, with no \<open>" (error ...)"\<close> after it.
\<close>

theorem factory_posix_code_absent:
  assumes "c \<in> set categories"
  shows "factory c h m1 m2 (Some (- 1)) = factory c h m1 m2 None \<and>
         (case (factory c h m1 m2 (Some (- 1)), factory c h m1 m2 None) of
            ((h1, s1), (h2, s2)) \<Rightarrow>
              ok s1 = ok s2 \<and> (\<forall>d \<in> set categories. Is d h1 s1 = Is d h2 s2) \<and>
              message h1 s1 = message h2 s2 \<and> posix_code h1 s1 = posix_code h2 s2 \<and>
              ToString names h1 s1 = ToString names h2 s2 \<and>
              posix_code h1 s1 = Some (- 1) \<and>
              (\<exists>m. message h1 s1 = Some m \<and>
                   ToString names h1 s1 = Some (names c @ '': '' @ m)))"
proof -
  from assms have c: "c \<noteq> kOk" by (simp add: categories_iff)
  have same: "factory c h m1 m2 (Some (- 1)) = factory c h m1 m2 None"
    by (simp add: factory_ctor [OF c] default_posix_code_def)
  obtain h' s where f: "factory c h m1 m2 None = (h', s)"
    by (cases "factory c h m1 m2 None")
  note r = factory_readers [OF c f]
  have "\<not> ok s" using r(1) by (simp add: ok_def)
  then have "ToString names h' s =
      Some (names c @ '': '' @
        take (length (combine m1 (default_msg2 m2)) mod 2 ^ 32) (combine m1 (default_msg2 m2)))"
    using r(2-4)
    by (simp add: ToString_def CodeAsString_def posix_suffix_def default_posix_code_def)
  with same f r(3,4) show ?thesis
    by (simp add: default_posix_code_def)
qed

theorem factory_posix_code_absent_witness:
  "kTimedOut \<in> set categories \<and>
   TimedOut empty_heap ''rpc'' (Some ''late'') (Some (- 1)) =
     TimedOut empty_heap ''rpc'' (Some ''late'') None \<and>
   (case TimedOut empty_heap ''rpc'' (Some ''late'') (Some (- 1)) of
      (h', s) \<Rightarrow> posix_code h' s = Some (- 1) \<and>
        ToString (\<lambda>c. ''Timed out'') h' s = Some ''Timed out: rpc: late'')"
proof -
  have a: "kTimedOut \<in> set categories" by (simp add: categories_def all_codes_def)
  have m: "(case TimedOut empty_heap ''rpc'' (Some ''late'') (Some (- 1)) of
      (h', s) \<Rightarrow> message h' s = Some ''rpc: late'')"
  proof -
    have "message h' s = Some ''rpc: late''"
      if "factory kTimedOut empty_heap ''rpc'' (Some ''late'') (Some (- 1)) = (h', s)"
      for h' s
      using factory_readers(4) [OF _ that] by (simp add: combine_def default_msg2_def)
    then show ?thesis by (simp split: prod.splits)
  qed
  show ?thesis
    using factory_posix_code_absent [OF a, of empty_heap "''rpc''" "Some ''late''"
        "\<lambda>c. ''Timed out''"] a m
    by (auto split: prod.splits)
qed

end
